theory Spec2Isabelle
  imports Complex_Main
begin

section \<open>NegaBot API: classifier gateway, prediction store and HTTP handlers\<close>

text \<open>
  The development follows the three modules of the service:
  \<^item> \<^verbatim>\<open>model.py\<close>: \<open>NegaBotModel.predict\<close> and \<open>NegaBotModel.batch_predict\<close>;
  \<^item> \<^verbatim>\<open>database.py\<close>: \<open>PredictionLogger\<close> over the SQLite table \<open>predictions\<close>
    and the module-level convenience functions;
  \<^item> \<^verbatim>\<open>api.py\<close>: the pydantic request models and the three handlers
    \<open>predict_sentiment\<close>, \<open>batch_predict_sentiment\<close> and \<open>get_prediction_stats\<close>.

  Conventions of the embedding.
  \<^item> Python floats are read as real numbers and float arithmetic as exact arithmetic.
    The numeric value of a float result is therefore idealised: a computation on doubles
    can differ from it in the last digit. No statement below depends on such a value.
  \<^item> A Python \<open>str\<close> is a \<open>string\<close>; its length is the number of its characters.
  \<^item> Instants (\<open>datetime.now()\<close>, SQLite's \<open>CURRENT_TIMESTAMP\<close>) are natural numbers,
    larger meaning later; their textual form is not modelled.
  \<^item> Everything outside the repository that the code talks to is part of an explicit
    \<open>world\<close>: the rows of the table, the wall clock, and whether an access to the
    database file faults.
  \<^item> The detail message of an \<open>HTTPException\<close> is not modelled, only its status code.
\<close>

subsection \<open>Python values\<close>

text \<open>A value decoded from a JSON request body.\<close>

datatype json =
    JNull
  | JBool bool
  | JInt int
  | JStr string
  | JArr "json list"
  | JObj "(string \<times> json) list"

text \<open>A Python \<open>dict\<close> with string keys, in insertion order.\<close>

type_synonym pydict = "(string \<times> json) list"

text \<open>
  The text that \<open>json.dumps\<close> writes into the \<open>metadata\<close> column. The library is not part
  of the repository: the document produced for a dict is represented by the dict it
  denotes, \<open>json.loads\<close> reads it back, and a document is never the empty string.
\<close>

datatype json_text = JsonText pydict

definition json_dumps :: "pydict \<Rightarrow> json_text" where
  "json_dumps d = JsonText d"

fun json_loads :: "json_text \<Rightarrow> pydict" where
  "json_loads (JsonText d) = d"

text \<open>
  \<open>round(x, ndigits)\<close> on a float: the nearest multiple of \<open>10 ^ -ndigits\<close>, a tie going to
  the even multiple.
\<close>

definition round_half_even :: "real \<Rightarrow> int" where
  "round_half_even y =
     (let f = \<lfloor>y\<rfloor>; d = y - of_int f
      in if d < 1 / 2 then f
         else if 1 / 2 < d then f + 1
         else if even f then f else f + 1)"

definition py_round :: "real \<Rightarrow> nat \<Rightarrow> real" where
  "py_round x ndigits = of_int (round_half_even (x * 10 ^ ndigits)) / 10 ^ ndigits"

text \<open>Exceptions that travel through the code.\<close>

datatype py_exn =
    HTTPException nat
  | ModelFault
  | IndexError
  | StoreFault

subsection \<open>The world outside the process\<close>

text \<open>One row of the table \<open>predictions\<close>, columns in the order of \<open>CREATE TABLE\<close>.\<close>

record db_row =
  col_id :: nat
  col_text :: string
  col_sentiment :: string
  col_confidence :: real
  col_predicted_class :: int
  col_timestamp :: nat
  col_metadata :: "json_text option"
  col_created_at :: nat

text \<open>
  \<open>rows\<close> is the table in insertion order and \<open>next_id\<close> the next \<open>AUTOINCREMENT\<close> key.
  \<open>clock\<close> gives the reading of the wall clock at its n-th reading, \<open>io_fault\<close> tells
  whether the n-th access to the database file faults. \<open>logger_instance\<close> is the module
  global \<open>_logger_instance\<close> of \<^verbatim>\<open>database.py\<close> (\<open>False\<close> for \<open>None\<close>). \<open>calls\<close> records the
  texts handed to the classifier, oldest first.
\<close>

record world =
  rows :: "db_row list"
  next_id :: nat
  clock :: "nat \<Rightarrow> nat"
  clock_reads :: nat
  io_fault :: "nat \<Rightarrow> bool"
  io_ops :: nat
  logger_instance :: bool
  calls :: "string list"

definition now :: "world \<Rightarrow> nat \<times> world" where
  "now w = (clock w (clock_reads w), w\<lparr>clock_reads := Suc (clock_reads w)\<rparr>)"

definition store_access :: "world \<Rightarrow> bool \<times> world" where
  "store_access w = (io_fault w (io_ops w), w\<lparr>io_ops := Suc (io_ops w)\<rparr>)"

subsection \<open>model.py\<close>

text \<open>
  The tokenizer and the network are loaded from outside; together they take a text to
  the row of logits, or raise.
\<close>

type_synonym classifier = "string \<Rightarrow> py_exn + real list"

definition softmax :: "real list \<Rightarrow> real list" where
  "softmax logits = map (\<lambda>x. exp x / sum_list (map exp logits)) logits"

text \<open>\<open>torch.argmax\<close>: the index of the largest entry, the first one among equals.\<close>

fun argmax :: "real list \<Rightarrow> nat" where
  "argmax [] = 0"
| "argmax [x] = 0"
| "argmax (x # y # ys) =
     (let j = argmax (y # ys) in if x < (y # ys) ! j then Suc j else 0)"

text \<open>The dict returned by \<open>NegaBotModel.predict\<close>.\<close>

record prediction =
  p_text :: string
  p_sentiment :: string
  p_confidence :: real
  p_predicted_class :: nat
  p_positive :: real
  p_negative :: real

text \<open>
  \<open>NegaBotModel.predict\<close>. An exception of the tokenizer or the network is logged and
  raised again. \<open>probabilities[0][1]\<close> raises when the row has fewer than two entries.
\<close>

definition predict :: "classifier \<Rightarrow> string \<Rightarrow> world \<Rightarrow> (py_exn + prediction) \<times> world" where
  "predict net text w =
     (let w1 = w\<lparr>calls := calls w @ [text]\<rparr>
      in case net text of
           Inl e \<Rightarrow> (Inl e, w1)
         | Inr logits \<Rightarrow>
             if length logits < 2 then (Inl IndexError, w1)
             else
               let probabilities = softmax logits;
                   predicted_class = argmax logits;
                   confidence = probabilities ! predicted_class;
                   sentiment = (if predicted_class = 1 then ''Negative'' else ''Positive'')
               in (Inr \<lparr>p_text = text,
                        p_sentiment = sentiment,
                        p_confidence = py_round confidence 4,
                        p_predicted_class = predicted_class,
                        p_positive = py_round (probabilities ! 0) 4,
                        p_negative = py_round (probabilities ! 1) 4\<rparr>, w1))"

text \<open>\<open>NegaBotModel.batch_predict\<close>: one \<open>predict\<close> per text, in order; the first exception ends the loop.\<close>

fun batch_predict :: "classifier \<Rightarrow> string list \<Rightarrow> world \<Rightarrow> (py_exn + prediction list) \<times> world" where
  "batch_predict net [] w = (Inr [], w)"
| "batch_predict net (text # texts) w =
     (case predict net text w of
        (Inl e, w1) \<Rightarrow> (Inl e, w1)
      | (Inr r, w1) \<Rightarrow>
          (case batch_predict net texts w1 of
             (Inl e, w2) \<Rightarrow> (Inl e, w2)
           | (Inr rs, w2) \<Rightarrow> (Inr (r # rs), w2)))"

subsection \<open>database.py\<close>

text \<open>
  \<open>get_logger\<close>: the first call constructs the \<open>PredictionLogger\<close>, whose \<open>init_database\<close>
  opens the file and creates table and indexes if they are missing; its exception is
  raised again and leaves the global unset.
\<close>

definition get_logger :: "world \<Rightarrow> (py_exn + unit) \<times> world" where
  "get_logger w =
     (if logger_instance w then (Inr (), w)
      else
        let (fault, w1) = store_access w
        in if fault then (Inl StoreFault, w1)
           else (Inr (), w1\<lparr>logger_instance := True\<rparr>))"

text \<open>
  \<open>PredictionLogger.log_prediction\<close>. \<open>predicted_class\<close> is inferred from the sentiment
  when it is not given. \<open>json.dumps(metadata) if metadata else None\<close>: a missing dict and
  an empty dict both store \<open>NULL\<close>. The insert is one transaction: a fault leaves the
  table as it was and the exception is raised again.
\<close>

definition PredictionLogger_log_prediction ::
  "string \<Rightarrow> string \<Rightarrow> real \<Rightarrow> int option \<Rightarrow> pydict option \<Rightarrow> world \<Rightarrow> (py_exn + unit) \<times> world" where
  "PredictionLogger_log_prediction text sentiment confidence predicted_class metadata w =
     (let pc = (case predicted_class of
                  None \<Rightarrow> (if sentiment = ''Negative'' then 1 else 0)
                | Some c \<Rightarrow> c);
          (fault, w1) = store_access w
      in if fault then (Inl StoreFault, w1)
         else
           let (ts, w2) = now w1;
               (created, w3) = now w2;
               row = \<lparr>col_id = next_id w3,
                      col_text = text,
                      col_sentiment = sentiment,
                      col_confidence = confidence,
                      col_predicted_class = pc,
                      col_timestamp = ts,
                      col_metadata = (case metadata of
                                        None \<Rightarrow> None
                                      | Some d \<Rightarrow> if d \<noteq> [] then Some (json_dumps d) else None),
                      col_created_at = created\<rparr>
           in (Inr (), w3\<lparr>rows := rows w3 @ [row], next_id := Suc (next_id w3)\<rparr>))"

text \<open>The dict built from a fetched row.\<close>

record stored_prediction =
  s_id :: nat
  s_text :: string
  s_sentiment :: string
  s_confidence :: real
  s_predicted_class :: int
  s_timestamp :: nat
  s_metadata :: "pydict option"
  s_created_at :: nat

definition row_to_dict :: "db_row \<Rightarrow> stored_prediction" where
  "row_to_dict row =
     \<lparr>s_id = col_id row,
      s_text = col_text row,
      s_sentiment = col_sentiment row,
      s_confidence = col_confidence row,
      s_predicted_class = col_predicted_class row,
      s_timestamp = col_timestamp row,
      s_metadata = (case col_metadata row of None \<Rightarrow> None | Some t \<Rightarrow> Some (json_loads t)),
      s_created_at = col_created_at row\<rparr>"

text \<open>
  \<open>ORDER BY created_at DESC\<close>. SQL leaves the order of rows with equal keys open; here
  they stay in insertion order.
\<close>

fun insert_desc :: "db_row \<Rightarrow> db_row list \<Rightarrow> db_row list" where
  "insert_desc r [] = [r]"
| "insert_desc r (x # xs) =
     (if col_created_at r < col_created_at x then x # insert_desc r xs else r # x # xs)"

definition order_by_created_at_desc :: "db_row list \<Rightarrow> db_row list" where
  "order_by_created_at_desc rs = foldr insert_desc rs []"

text \<open>
  \<open>LIMIT n\<close> with the literal \<open>n\<close> written into the query: SQLite applies no upper bound
  when \<open>n\<close> is negative, and refuses a literal outside the 64-bit integers with the error
  \<open>datatype mismatch\<close>.
\<close>

definition sql_limit :: "int \<Rightarrow> 'a list \<Rightarrow> py_exn + 'a list" where
  "sql_limit n xs =
     (if n < - (2 ^ 63) \<or> 2 ^ 63 \<le> n then Inl StoreFault
      else if n < 0 then Inr xs
      else Inr (take (nat n) xs))"

text \<open>
  \<open>PredictionLogger.get_all_predictions\<close>. \<open>if limit:\<close> adds the \<open>LIMIT\<close> clause for a limit
  that is neither \<open>None\<close> nor \<open>0\<close>. Any exception is logged and answered with \<open>[]\<close>.
\<close>

definition PredictionLogger_get_all_predictions ::
  "int option \<Rightarrow> world \<Rightarrow> stored_prediction list \<times> world" where
  "PredictionLogger_get_all_predictions limit w =
     (let (fault, w1) = store_access w
      in if fault then ([], w1)
         else
           let ordered = order_by_created_at_desc (rows w1);
               fetched = (case limit of
                            None \<Rightarrow> Inr ordered
                          | Some n \<Rightarrow> if n \<noteq> 0 then sql_limit n ordered else Inr ordered)
           in case fetched of
                Inl e \<Rightarrow> ([], w1)
              | Inr fetched_rows \<Rightarrow> (map row_to_dict fetched_rows, w1))"

text \<open>\<open>PredictionLogger.get_predictions_by_sentiment\<close>: \<open>WHERE sentiment = ?\<close>, same order.\<close>

definition PredictionLogger_get_predictions_by_sentiment ::
  "string \<Rightarrow> world \<Rightarrow> stored_prediction list \<times> world" where
  "PredictionLogger_get_predictions_by_sentiment sentiment w =
     (let (fault, w1) = store_access w
      in if fault then ([], w1)
         else
           (map row_to_dict
              (order_by_created_at_desc (filter (\<lambda>r. col_sentiment r = sentiment) (rows w1))), w1))"

text \<open>The module-level convenience functions: \<open>get_logger()\<close>, then the method.\<close>

definition log_prediction ::
  "string \<Rightarrow> string \<Rightarrow> real \<Rightarrow> pydict option \<Rightarrow> world \<Rightarrow> (py_exn + unit) \<times> world" where
  "log_prediction text sentiment confidence metadata w =
     (case get_logger w of
        (Inl e, w1) \<Rightarrow> (Inl e, w1)
      | (Inr _, w1) \<Rightarrow> PredictionLogger_log_prediction text sentiment confidence None metadata w1)"

definition get_all_predictions ::
  "int option \<Rightarrow> world \<Rightarrow> (py_exn + stored_prediction list) \<times> world" where
  "get_all_predictions limit w =
     (case get_logger w of
        (Inl e, w1) \<Rightarrow> (Inl e, w1)
      | (Inr _, w1) \<Rightarrow>
          (let (ps, w2) = PredictionLogger_get_all_predictions limit w1 in (Inr ps, w2)))"

definition get_predictions_by_sentiment ::
  "string \<Rightarrow> world \<Rightarrow> (py_exn + stored_prediction list) \<times> world" where
  "get_predictions_by_sentiment sentiment w =
     (case get_logger w of
        (Inl e, w1) \<Rightarrow> (Inl e, w1)
      | (Inr _, w1) \<Rightarrow>
          (let (ps, w2) = PredictionLogger_get_predictions_by_sentiment sentiment w1
           in (Inr ps, w2)))"

subsection \<open>api.py\<close>

text \<open>The pydantic models.\<close>

record TweetRequest =
  req_text :: string
  req_metadata :: "pydict option"

record TweetResponse =
  resp_text :: string
  resp_sentiment :: string
  resp_confidence :: real
  resp_predicted_class :: nat
  resp_positive :: real
  resp_negative :: real
  resp_timestamp :: nat
  resp_request_id :: "string option"

record BatchTweetRequest =
  tweets :: "string list"
  batch_metadata :: "pydict option"

record BatchTweetResponse =
  results :: "TweetResponse list"
  total_processed :: nat
  batch_timestamp :: nat

text \<open>
  The constraints of the request models: \<open>text\<close> has \<open>min_length=1, max_length=1000\<close>;
  \<open>tweets\<close> has \<open>min_items=1, max_items=50\<close> and no constraint on its items.
\<close>

definition TweetRequest_valid :: "TweetRequest \<Rightarrow> bool" where
  "TweetRequest_valid request \<longleftrightarrow>
     1 \<le> length (req_text request) \<and> length (req_text request) \<le> 1000"

definition BatchTweetRequest_valid :: "BatchTweetRequest \<Rightarrow> bool" where
  "BatchTweetRequest_valid request \<longleftrightarrow>
     1 \<le> length (tweets request) \<and> length (tweets request) \<le> 50"

text \<open>The global \<open>model\<close> is \<open>None\<close> until \<open>startup_event\<close> has loaded the classifier.\<close>

definition make_response :: "prediction \<Rightarrow> nat \<Rightarrow> TweetResponse" where
  "make_response result ts =
     \<lparr>resp_text = p_text result,
      resp_sentiment = p_sentiment result,
      resp_confidence = p_confidence result,
      resp_predicted_class = p_predicted_class result,
      resp_positive = p_positive result,
      resp_negative = p_negative result,
      resp_timestamp = ts,
      resp_request_id = None\<rparr>"

text \<open>The \<open>try\<close> block of \<open>predict_sentiment\<close>.\<close>

definition predict_sentiment_try ::
  "classifier option \<Rightarrow> TweetRequest \<Rightarrow> world \<Rightarrow> (py_exn + TweetResponse) \<times> world" where
  "predict_sentiment_try model request w =
     (case model of
        None \<Rightarrow> (Inl (HTTPException 503), w)
      | Some net \<Rightarrow>
          (case predict net (req_text request) w of
             (Inl e, w1) \<Rightarrow> (Inl e, w1)
           | (Inr result, w1) \<Rightarrow>
               (let (ts, w2) = now w1;
                    response = make_response result ts
                in case log_prediction (req_text request) (p_sentiment result)
                          (p_confidence result) (req_metadata request) w2 of
                     (Inl e, w3) \<Rightarrow> (Inl e, w3)
                   | (Inr _, w3) \<Rightarrow> (Inr response, w3))))"

text \<open>
  \<open>predict_sentiment\<close>: \<open>except Exception\<close> catches whatever the block raised,
  \<open>HTTPException\<close> being a subclass of \<open>Exception\<close>, and raises \<open>HTTPException(500)\<close>.
\<close>

definition predict_sentiment ::
  "classifier option \<Rightarrow> TweetRequest \<Rightarrow> world \<Rightarrow> (py_exn + TweetResponse) \<times> world" where
  "predict_sentiment model request w =
     (case predict_sentiment_try model request w of
        (Inl e, w1) \<Rightarrow> (Inl (HTTPException 500), w1)
      | (Inr response, w1) \<Rightarrow> (Inr response, w1))"

text \<open>The \<open>for result in results\<close> loop of \<open>batch_predict_sentiment\<close>.\<close>

fun batch_loop ::
  "pydict option \<Rightarrow> prediction list \<Rightarrow> TweetResponse list \<Rightarrow> world
     \<Rightarrow> (py_exn + TweetResponse list) \<times> world" where
  "batch_loop metadata [] responses w = (Inr responses, w)"
| "batch_loop metadata (result # rest) responses w =
     (let (ts, w1) = now w;
          response = make_response result ts;
          responses1 = responses @ [response]
      in case log_prediction (p_text result) (p_sentiment result)
                (p_confidence result) metadata w1 of
           (Inl e, w2) \<Rightarrow> (Inl e, w2)
         | (Inr _, w2) \<Rightarrow> batch_loop metadata rest responses1 w2)"

definition batch_predict_sentiment_try ::
  "classifier option \<Rightarrow> BatchTweetRequest \<Rightarrow> world \<Rightarrow> (py_exn + BatchTweetResponse) \<times> world" where
  "batch_predict_sentiment_try model request w =
     (case model of
        None \<Rightarrow> (Inl (HTTPException 503), w)
      | Some net \<Rightarrow>
          (case batch_predict net (tweets request) w of
             (Inl e, w1) \<Rightarrow> (Inl e, w1)
           | (Inr rs, w1) \<Rightarrow>
               (case batch_loop (batch_metadata request) rs [] w1 of
                  (Inl e, w2) \<Rightarrow> (Inl e, w2)
                | (Inr responses, w2) \<Rightarrow>
                    (let (ts, w3) = now w2
                     in (Inr \<lparr>results = responses,
                              total_processed = length responses,
                              batch_timestamp = ts\<rparr>, w3)))))"

definition batch_predict_sentiment ::
  "classifier option \<Rightarrow> BatchTweetRequest \<Rightarrow> world \<Rightarrow> (py_exn + BatchTweetResponse) \<times> world" where
  "batch_predict_sentiment model request w =
     (case batch_predict_sentiment_try model request w of
        (Inl e, w1) \<Rightarrow> (Inl (HTTPException 500), w1)
      | (Inr response, w1) \<Rightarrow> (Inr response, w1))"

text \<open>The dict returned by \<open>get_prediction_stats\<close>, keys in the order they are written.\<close>

datatype pyval = PyInt int | PyFloat real | PyStr string | PyInstant nat

type_synonym stats = "(string \<times> pyval) list"

definition get_prediction_stats_try :: "world \<Rightarrow> (py_exn + stats) \<times> world" where
  "get_prediction_stats_try w =
     (case get_all_predictions None w of
        (Inl e, w1) \<Rightarrow> (Inl e, w1)
      | (Inr predictions, w1) \<Rightarrow>
          if predictions = [] then
            (Inr [(''total_predictions'', PyInt 0),
                  (''positive_count'', PyInt 0),
                  (''negative_count'', PyInt 0),
                  (''average_confidence'', PyInt 0),
                  (''message'', PyStr ''No predictions found'')], w1)
          else
            (let total = int (length predictions);
                 positive_count = int (length (filter (\<lambda>p. s_sentiment p = ''Positive'') predictions));
                 negative_count = total - positive_count;
                 avg_confidence = sum_list (map s_confidence predictions) / of_int total;
                 (ts, w2) = now w1
             in (Inr [(''total_predictions'', PyInt total),
                      (''positive_count'', PyInt positive_count),
                      (''negative_count'', PyInt negative_count),
                      (''positive_percentage'',
                         PyFloat (py_round ((of_int positive_count / of_int total) * 100) 2)),
                      (''negative_percentage'',
                         PyFloat (py_round ((of_int negative_count / of_int total) * 100) 2)),
                      (''average_confidence'', PyFloat (py_round avg_confidence 4)),
                      (''last_updated'', PyInstant ts)], w2)))"

definition get_prediction_stats :: "world \<Rightarrow> (py_exn + stats) \<times> world" where
  "get_prediction_stats w =
     (case get_prediction_stats_try w of
        (Inl e, w1) \<Rightarrow> (Inl (HTTPException 500), w1)
      | (Inr st, w1) \<Rightarrow> (Inr st, w1))"

text \<open>
  What the framework does around a handler: a body that violates the request model is
  answered with 422 before the handler runs; an \<open>HTTPException\<close> raised by the handler
  becomes a response with its status code; a returned value is sent with status 200.
\<close>

datatype 'a http_response = HTTP200 'a | HTTPError nat

fun to_response :: "py_exn + 'a \<Rightarrow> 'a http_response" where
  "to_response (Inr x) = HTTP200 x"
| "to_response (Inl (HTTPException status)) = HTTPError status"
| "to_response (Inl _) = HTTPError 500"

definition post_predict ::
  "classifier option \<Rightarrow> TweetRequest \<Rightarrow> world \<Rightarrow> TweetResponse http_response \<times> world" where
  "post_predict model body w =
     (if \<not> TweetRequest_valid body then (HTTPError 422, w)
      else let (r, w1) = predict_sentiment model body w in (to_response r, w1))"

definition post_batch_predict ::
  "classifier option \<Rightarrow> BatchTweetRequest \<Rightarrow> world \<Rightarrow> BatchTweetResponse http_response \<times> world" where
  "post_batch_predict model body w =
     (if \<not> BatchTweetRequest_valid body then (HTTPError 422, w)
      else let (r, w1) = batch_predict_sentiment model body w in (to_response r, w1))"

definition get_stats :: "world \<Rightarrow> stats http_response \<times> world" where
  "get_stats w = (let (r, w1) = get_prediction_stats w in (to_response r, w1))"

subsection \<open>Notions used in the statements\<close>

text \<open>
  A text is classified when the network answers it with at least two logits, which is
  when \<open>predict\<close> returns; the head is binary when every answer has exactly two.
\<close>

definition classifies :: "classifier \<Rightarrow> string \<Rightarrow> bool" where
  "classifies net text = (case net text of Inl e \<Rightarrow> False | Inr logits \<Rightarrow> 2 \<le> length logits)"

definition binary_head :: "classifier \<Rightarrow> bool" where
  "binary_head net \<longleftrightarrow> (\<forall>text logits. net text = Inr logits \<longrightarrow> length logits = 2)"

text \<open>No access to the database file faults from now on.\<close>

definition reliable :: "world \<Rightarrow> bool" where
  "reliable w \<longleftrightarrow> (\<forall>n\<ge>io_ops w. \<not> io_fault w n)"

text \<open>The label of a classifier result, and the row logged for a result.\<close>

definition well_labelled :: "prediction \<Rightarrow> bool" where
  "well_labelled r \<longleftrightarrow>
     (p_sentiment r = ''Negative'' \<or> p_sentiment r = ''Positive'')
     \<and> (p_sentiment r = ''Negative'' \<longleftrightarrow> p_predicted_class r = 1)"

definition row_of :: "prediction \<Rightarrow> db_row \<Rightarrow> bool" where
  "row_of r row \<longleftrightarrow>
     col_text row = p_text r \<and> col_sentiment row = p_sentiment r
     \<and> col_predicted_class row = (if p_sentiment r = ''Negative'' then 1 else 0)"

text \<open>The invariant of the data model, on a response and on a row.\<close>

definition response_class_invariant :: "TweetResponse \<Rightarrow> bool" where
  "response_class_invariant r \<longleftrightarrow>
     (resp_predicted_class r = 0 \<longleftrightarrow> resp_sentiment r = ''Positive'')
     \<and> (resp_predicted_class r = 1 \<longleftrightarrow> resp_sentiment r = ''Negative'')"

definition row_class_invariant :: "db_row \<Rightarrow> bool" where
  "row_class_invariant row \<longleftrightarrow>
     (col_predicted_class row = 0 \<longleftrightarrow> col_sentiment row = ''Positive'')
     \<and> (col_predicted_class row = 1 \<longleftrightarrow> col_sentiment row = ''Negative'')"

text \<open>
  The accesses to the database file that \<open>get_logger\<close> still has to make, and whether one
  of the next \<open>n\<close> accesses faults.
\<close>

definition init_accesses :: "world \<Rightarrow> nat" where
  "init_accesses w = (if logger_instance w then 0 else 1)"

definition fault_within :: "nat \<Rightarrow> world \<Rightarrow> bool" where
  "fault_within n w \<longleftrightarrow> (\<exists>k<n. io_fault w (io_ops w + k))"

text \<open>The dict that \<open>get_prediction_stats\<close> returns for an empty history.\<close>

definition zero_snapshot :: stats where
  "zero_snapshot =
     [(''total_predictions'', PyInt 0),
      (''positive_count'', PyInt 0),
      (''negative_count'', PyInt 0),
      (''average_confidence'', PyInt 0),
      (''message'', PyStr ''No predictions found'')]"

subsection \<open>Sample inputs\<close>

text \<open>
  A fresh process over an empty table whose file never faults, and a classifier that
  rejects one text and otherwise answers with two logits.
\<close>

definition fresh_world :: world where
  "fresh_world =
     \<lparr>rows = [], next_id = 1, clock = (\<lambda>n. n), clock_reads = 0,
      io_fault = (\<lambda>n. False), io_ops = 0, logger_instance = False, calls = []\<rparr>"

definition sample_net :: classifier where
  "sample_net text =
     (if text = ''boom'' then Inl ModelFault else Inr [1, of_nat (length text)])"

definition sample_request :: TweetRequest where
  "sample_request = \<lparr>req_text = ''ab'', req_metadata = Some [(''source'', JStr ''test'')]\<rparr>"

definition sample_batch :: BatchTweetRequest where
  "sample_batch = \<lparr>tweets = [''a'', ''ab''], batch_metadata = None\<rparr>"

definition failing_batch :: BatchTweetRequest where
  "failing_batch = \<lparr>tweets = [''a'', ''boom''], batch_metadata = None\<rparr>"

text \<open>
  A table with two rows whose file does not fault, the same table with a fault at the
  next access, and a file that cannot be opened at all.
\<close>

definition positive_row :: db_row where
  "positive_row =
     \<lparr>col_id = 1, col_text = ''a'', col_sentiment = ''Positive'', col_confidence = 9 / 10,
      col_predicted_class = 0, col_timestamp = 0, col_metadata = None, col_created_at = 1\<rparr>"

definition negative_row :: db_row where
  "negative_row =
     \<lparr>col_id = 2, col_text = ''ab'', col_sentiment = ''Negative'', col_confidence = 8 / 10,
      col_predicted_class = 1, col_timestamp = 2, col_metadata = None, col_created_at = 3\<rparr>"

definition stocked_world :: world where
  "stocked_world =
     \<lparr>rows = [positive_row, negative_row], next_id = 3, clock = (\<lambda>n. n), clock_reads = 4,
      io_fault = (\<lambda>n. False), io_ops = 3, logger_instance = True, calls = [''a'', ''ab'']\<rparr>"

definition faulty_world :: world where
  "faulty_world = stocked_world\<lparr>io_fault := (\<lambda>n. n = 3)\<rparr>"

definition unreachable_world :: world where
  "unreachable_world = fresh_world\<lparr>io_fault := (\<lambda>n. True)\<rparr>"

text \<open>
  Requests at the edges: batches with an empty item, an empty batch, an empty metadata dict.
\<close>

definition empty_item_batch :: BatchTweetRequest where
  "empty_item_batch = \<lparr>tweets = [''a'', '''', ''ab''], batch_metadata = None\<rparr>"

definition lone_empty_batch :: BatchTweetRequest where
  "lone_empty_batch = \<lparr>tweets = [''''], batch_metadata = None\<rparr>"

definition no_item_batch :: BatchTweetRequest where
  "no_item_batch = \<lparr>tweets = [], batch_metadata = None\<rparr>"

definition empty_metadata_request :: TweetRequest where
  "empty_metadata_request = \<lparr>req_text = ''ab'', req_metadata = Some []\<rparr>"

section \<open>Properties\<close>

subsection \<open>The classifier\<close>

lemma argmax_less: "logits \<noteq> [] \<Longrightarrow> argmax logits < length logits"
  by (induction logits rule: argmax.induct) (auto simp: Let_def)

lemma argmax_two: "length logits = 2 \<Longrightarrow> argmax logits = 0 \<or> argmax logits = 1"
  using argmax_less [of logits] by (cases logits) auto

lemma predict_world: "predict net text w = (x, w') \<Longrightarrow> w' = w\<lparr>calls := calls w @ [text]\<rparr>"
  by (auto simp: predict_def Let_def split: sum.splits if_splits)

lemma predict_Inr_iff: "(\<exists>r. fst (predict net text w) = Inr r) \<longleftrightarrow> classifies net text"
  by (auto simp: predict_def classifies_def Let_def split: sum.splits if_splits)

lemma predict_Inr:
  "predict net text w = (Inr r, w') \<Longrightarrow>
     p_text r = text \<and> (p_sentiment r = ''Negative'' \<or> p_sentiment r = ''Positive'')
     \<and> (p_sentiment r = ''Negative'' \<longleftrightarrow> p_predicted_class r = 1)
     \<and> (\<exists>logits. net text = Inr logits \<and> p_predicted_class r = argmax logits)"
  by (auto simp: predict_def Let_def split: sum.splits if_splits)

lemma batch_predict_world:
  "batch_predict net texts w = (x, w') \<Longrightarrow> \<exists>cs. w' = w\<lparr>calls := cs\<rparr>"
proof (induction texts arbitrary: w x w')
  case Nil
  then show ?case by (auto intro: exI [of _ "calls w"])
next
  case (Cons t ts)
  obtain y w1 where p: "predict net t w = (y, w1)" by (cases "predict net t w")
  then have w1: "w1 = w\<lparr>calls := calls w @ [t]\<rparr>" by (rule predict_world)
  show ?case
  proof (cases y)
    case (Inl e)
    with Cons.prems p w1 show ?thesis by auto
  next
    case (Inr r)
    obtain z w2 where b: "batch_predict net ts w1 = (z, w2)" by (cases "batch_predict net ts w1")
    from Cons.IH [OF b] obtain cs where "w2 = w1\<lparr>calls := cs\<rparr>" by blast
    moreover from Cons.prems p Inr b have "w' = w2" by (auto split: sum.splits)
    ultimately show ?thesis using w1 by auto
  qed
qed

lemma predict_well_labelled: "predict net text w = (Inr r, w') \<Longrightarrow> well_labelled r"
  by (auto simp: predict_def well_labelled_def Let_def split: sum.splits if_splits)

lemma batch_predict_Inr:
  "batch_predict net texts w = (Inr rs, w') \<Longrightarrow>
     map p_text rs = texts \<and> w' = w\<lparr>calls := calls w @ texts\<rparr>
     \<and> (\<forall>r\<in>set rs. well_labelled r)
     \<and> (\<forall>r\<in>set rs. \<exists>logits. net (p_text r) = Inr logits \<and> p_predicted_class r = argmax logits)"
proof (induction texts arbitrary: w rs w')
  case Nil
  then show ?case by auto
next
  case (Cons t ts)
  obtain y w1 where p: "predict net t w = (y, w1)" by (cases "predict net t w")
  with Cons.prems obtain r where y: "y = Inr r" by (cases y) auto
  obtain z w2 where b: "batch_predict net ts w1 = (z, w2)" by (cases "batch_predict net ts w1")
  with Cons.prems p y obtain rs' where z: "z = Inr rs'" and rs: "rs = r # rs'" and w': "w' = w2"
    by (cases z) auto
  note ih = Cons.IH [OF b [unfolded z]]
  from p y have w1: "w1 = w\<lparr>calls := calls w @ [t]\<rparr>" by (auto dest: predict_world)
  from p y have r: "p_text r = t" "well_labelled r"
    "\<exists>logits. net (p_text r) = Inr logits \<and> p_predicted_class r = argmax logits"
    by (auto dest: predict_Inr predict_well_labelled)
  show ?case using ih r rs w' w1 by auto
qed

lemma batch_predict_Inl:
  "batch_predict net texts w = (Inl e, w') \<Longrightarrow> \<exists>t\<in>set texts. \<not> classifies net t"
proof (induction texts arbitrary: w w')
  case Nil
  then show ?case by simp
next
  case (Cons t ts)
  obtain y w1 where p: "predict net t w = (y, w1)" by (cases "predict net t w")
  show ?case
  proof (cases y)
    case (Inl e')
    with p have "\<not> classifies net t" using predict_Inr_iff [of net t w] by auto
    then show ?thesis by simp
  next
    case (Inr r)
    obtain z w2 where b: "batch_predict net ts w1 = (z, w2)" by (cases "batch_predict net ts w1")
    with Cons.prems p Inr have "z = Inl e" by (cases z) auto
    with Cons.IH b show ?thesis by auto
  qed
qed

lemma batch_predict_fails:
  "\<exists>t\<in>set texts. \<not> classifies net t \<Longrightarrow> \<exists>e. fst (batch_predict net texts w) = Inl e"
proof (induction texts arbitrary: w)
  case Nil
  then show ?case by simp
next
  case (Cons t ts)
  obtain y w1 where p: "predict net t w = (y, w1)" by (cases "predict net t w")
  show ?case
  proof (cases y)
    case (Inl e)
    with p show ?thesis by simp
  next
    case (Inr r)
    with p have "classifies net t" using predict_Inr_iff [of net t w] by auto
    with Cons.prems have "\<exists>t\<in>set ts. \<not> classifies net t" by auto
    from Cons.IH [OF this, of w1] obtain e where "fst (batch_predict net ts w1) = Inl e" ..
    with p Inr show ?thesis by (cases "batch_predict net ts w1") auto
  qed
qed

lemma batch_predict_succeeds:
  "\<forall>t\<in>set texts. classifies net t \<Longrightarrow> \<exists>rs. fst (batch_predict net texts w) = Inr rs"
proof (cases "batch_predict net texts w")
  case (Pair x w')
  assume ok: "\<forall>t\<in>set texts. classifies net t"
  show ?thesis
  proof (cases x)
    case (Inl e)
    with Pair ok show ?thesis using batch_predict_Inl [of net texts w e w'] by blast
  next
    case (Inr rs)
    with Pair show ?thesis by simp
  qed
qed

subsection \<open>The store\<close>

lemma get_logger_frame:
  "get_logger w = (x, w') \<Longrightarrow>
     rows w' = rows w \<and> next_id w' = next_id w \<and> calls w' = calls w
     \<and> io_fault w' = io_fault w \<and> io_ops w \<le> io_ops w'
     \<and> clock w' = clock w"
  by (auto simp: get_logger_def store_access_def Let_def split: if_splits)

lemma get_logger_ok:
  "logger_instance w \<or> \<not> io_fault w (io_ops w) \<Longrightarrow> \<exists>w'. get_logger w = (Inr (), w') \<and> logger_instance w'"
  by (auto simp: get_logger_def store_access_def Let_def)

lemma reliable_mono: "reliable w \<Longrightarrow> io_fault w' = io_fault w \<Longrightarrow> io_ops w \<le> io_ops w' \<Longrightarrow> reliable w'"
  by (auto simp: reliable_def)

lemma log_prediction_rows:
  "log_prediction text sentiment confidence metadata w = (x, w') \<Longrightarrow>
     \<exists>new. rows w' = rows w @ new \<and> length new \<le> 1 \<and> (x = Inr () \<longleftrightarrow> length new = 1)
       \<and> (\<forall>row\<in>set new. col_text row = text \<and> col_sentiment row = sentiment
            \<and> col_confidence row = confidence
            \<and> col_predicted_class row = (if sentiment = ''Negative'' then 1 else 0)
            \<and> col_metadata row = (case metadata of None \<Rightarrow> None
                                    | Some d \<Rightarrow> if d \<noteq> [] then Some (json_dumps d) else None))"
  by (auto simp: log_prediction_def PredictionLogger_log_prediction_def get_logger_def
        store_access_def now_def Let_def split: if_splits sum.splits prod.splits)

lemma log_prediction_frame:
  "log_prediction text sentiment confidence metadata w = (x, w') \<Longrightarrow>
     calls w' = calls w \<and> io_fault w' = io_fault w \<and> io_ops w \<le> io_ops w' \<and> clock w' = clock w"
  by (auto simp: log_prediction_def PredictionLogger_log_prediction_def get_logger_def
        store_access_def now_def Let_def split: if_splits sum.splits prod.splits)

lemma log_prediction_reliable:
  "reliable w \<Longrightarrow> \<exists>w'. log_prediction text sentiment confidence metadata w = (Inr (), w') \<and> reliable w'"
  by (auto simp: log_prediction_def PredictionLogger_log_prediction_def get_logger_def
        store_access_def now_def Let_def reliable_def split: if_splits sum.splits prod.splits)

lemma reliable_now: "reliable (snd (now w)) = reliable w"
  by (simp add: now_def reliable_def)

lemma now_frame:
  "now w = (ts, w1) \<Longrightarrow> rows w1 = rows w \<and> calls w1 = calls w \<and> next_id w1 = next_id w
     \<and> io_ops w1 = io_ops w \<and> io_fault w1 = io_fault w \<and> logger_instance w1 = logger_instance w"
  by (auto simp: now_def)

subsection \<open>The batch loop\<close>

lemma batch_loop_rows:
  "batch_loop metadata rs acc w = (x, w') \<Longrightarrow>
     \<exists>new. rows w' = rows w @ new \<and> (\<forall>row\<in>set new. \<exists>r\<in>set rs. row_of r row)"
proof (induction rs arbitrary: acc w)
  case Nil
  then show ?case by auto
next
  case (Cons r rs)
  obtain ts w1 where n: "now w = (ts, w1)" by (cases "now w")
  obtain y w2 where l: "log_prediction (p_text r) (p_sentiment r) (p_confidence r) metadata w1 = (y, w2)"
    by (cases "log_prediction (p_text r) (p_sentiment r) (p_confidence r) metadata w1")
  from log_prediction_rows [OF l] obtain new1 where
    new1: "rows w2 = rows w1 @ new1" "\<forall>row\<in>set new1. row_of r row"
    by (auto simp: row_of_def)
  from n have r1: "rows w1 = rows w" by (simp add: now_frame)
  show ?case
  proof (cases y)
    case (Inl e)
    with Cons.prems n l have "w' = w2" by simp
    with new1 r1 show ?thesis by auto
  next
    case (Inr u)
    with Cons.prems n l have "batch_loop metadata rs (acc @ [make_response r ts]) w2 = (x, w')"
      by simp
    from Cons.IH [OF this] obtain new2 where
      "rows w' = rows w2 @ new2" "\<forall>row\<in>set new2. \<exists>r\<in>set rs. row_of r row" by blast
    with new1 r1 have "rows w' = rows w @ (new1 @ new2)"
      "\<forall>row\<in>set (new1 @ new2). \<exists>r'\<in>set (r # rs). row_of r' row" by auto
    then show ?thesis by blast
  qed
qed

lemma batch_loop_Inr:
  "batch_loop metadata rs acc w = (Inr responses, w') \<Longrightarrow>
     (\<exists>tss. length tss = length rs \<and> responses = acc @ map2 make_response rs tss)
     \<and> calls w' = calls w"
proof (induction rs arbitrary: acc w)
  case Nil
  then show ?case by auto
next
  case (Cons r rs)
  obtain ts w1 where n: "now w = (ts, w1)" by (cases "now w")
  obtain y w2 where l: "log_prediction (p_text r) (p_sentiment r) (p_confidence r) metadata w1 = (y, w2)"
    by (cases "log_prediction (p_text r) (p_sentiment r) (p_confidence r) metadata w1")
  from Cons.prems n l obtain u where y: "y = Inr u" by (cases y) auto
  with Cons.prems n l have "batch_loop metadata rs (acc @ [make_response r ts]) w2 = (Inr responses, w')"
    by simp
  from Cons.IH [OF this] obtain tss where
    tss: "length tss = length rs" "responses = (acc @ [make_response r ts]) @ map2 make_response rs tss"
    and c: "calls w' = calls w2" by blast
  from tss have "length (ts # tss) = length (r # rs)"
    "responses = acc @ map2 make_response (r # rs) (ts # tss)" by auto
  moreover from c now_frame [OF n] log_prediction_frame [OF l] have "calls w' = calls w"
    by simp
  ultimately show ?case by blast
qed

lemma batch_loop_reliable:
  "reliable w \<Longrightarrow> \<exists>responses w'. batch_loop metadata rs acc w = (Inr responses, w') \<and> reliable w'"
proof (induction rs arbitrary: acc w)
  case Nil
  then show ?case by simp
next
  case (Cons r rs)
  obtain ts w1 where n: "now w = (ts, w1)" by (cases "now w")
  with Cons.prems have "reliable w1" using reliable_now [of w] by simp
  from log_prediction_reliable [OF this] obtain w2 where
    l: "log_prediction (p_text r) (p_sentiment r) (p_confidence r) metadata w1 = (Inr (), w2)"
    and "reliable w2" by blast
  from Cons.IH [OF this(2)] obtain responses w' where
    "batch_loop metadata rs (acc @ [make_response r ts]) w2 = (Inr responses, w')" "reliable w'"
    by blast
  with n l show ?case by simp
qed

lemma batch_loop_calls:
  "batch_loop metadata rs acc w = (x, w') \<Longrightarrow> calls w' = calls w"
proof (induction rs arbitrary: acc w)
  case Nil
  then show ?case by auto
next
  case (Cons r rs)
  obtain ts w1 where n: "now w = (ts, w1)" by (cases "now w")
  obtain y w2 where l: "log_prediction (p_text r) (p_sentiment r) (p_confidence r) metadata w1 = (y, w2)"
    by (cases "log_prediction (p_text r) (p_sentiment r) (p_confidence r) metadata w1")
  from now_frame [OF n] log_prediction_frame [OF l] have c: "calls w2 = calls w" by simp
  show ?case
  proof (cases y)
    case (Inl e)
    with Cons.prems n l c show ?thesis by simp
  next
    case (Inr u)
    with Cons.prems n l have "batch_loop metadata rs (acc @ [make_response r ts]) w2 = (x, w')"
      by simp
    from Cons.IH [OF this] c show ?thesis by simp
  qed
qed

subsection \<open>The handlers\<close>

lemma row_of_invariant: "well_labelled r \<Longrightarrow> row_of r row \<Longrightarrow> row_class_invariant row"
  by (auto simp: well_labelled_def row_of_def row_class_invariant_def)

lemma response_invariant:
  "well_labelled r \<Longrightarrow> p_predicted_class r \<le> 1 \<Longrightarrow> response_class_invariant (make_response r ts)"
  by (auto simp: well_labelled_def response_class_invariant_def make_response_def)

lemma binary_class: "binary_head net \<Longrightarrow> net text = Inr logits \<Longrightarrow> argmax logits \<le> 1"
  using argmax_two [of logits] by (auto simp: binary_head_def)

lemma predict_sentiment_try_rows:
  "predict_sentiment_try model request w = (x, w') \<Longrightarrow>
     \<exists>new. rows w' = rows w @ new \<and> (\<forall>row\<in>set new. row_class_invariant row)"
proof (cases model)
  case None
  assume "predict_sentiment_try model request w = (x, w')"
  with None show ?thesis by (simp add: predict_sentiment_try_def)
next
  case (Some net)
  assume a: "predict_sentiment_try model request w = (x, w')"
  obtain y w1 where p: "predict net (req_text request) w = (y, w1)"
    by (cases "predict net (req_text request) w")
  then have r1: "rows w1 = rows w" by (auto dest: predict_world)
  show ?thesis
  proof (cases y)
    case (Inl e)
    with a Some p r1 show ?thesis by (simp add: predict_sentiment_try_def)
  next
    case (Inr r)
    obtain ts w2 where n: "now w1 = (ts, w2)" by (cases "now w1")
    obtain z w3 where l: "log_prediction (req_text request) (p_sentiment r) (p_confidence r)
        (req_metadata request) w2 = (z, w3)"
      by (cases "log_prediction (req_text request) (p_sentiment r) (p_confidence r)
        (req_metadata request) w2")
    from a Some p Inr n l have "w' = w3"
      by (auto simp: predict_sentiment_try_def split: sum.splits)
    moreover from log_prediction_rows [OF l] obtain new where
      "rows w3 = rows w2 @ new"
      "\<forall>row\<in>set new. col_sentiment row = p_sentiment r
         \<and> col_predicted_class row = (if p_sentiment r = ''Negative'' then 1 else 0)"
      by auto
    moreover from p Inr have "well_labelled r" by (auto dest: predict_well_labelled)
    moreover from n have "rows w2 = rows w1" by (simp add: now_frame)
    ultimately have "rows w' = rows w @ new" "\<forall>row\<in>set new. row_class_invariant row"
      using r1 by (auto simp: well_labelled_def row_class_invariant_def)
    then show ?thesis by blast
  qed
qed

lemma predict_sentiment_try_Inr:
  "predict_sentiment_try (Some net) request w = (Inr response, w') \<Longrightarrow>
     \<exists>r ts logits. response = make_response r ts \<and> well_labelled r \<and> p_text r = req_text request
        \<and> net (req_text request) = Inr logits \<and> p_predicted_class r = argmax logits"
proof -
  assume a: "predict_sentiment_try (Some net) request w = (Inr response, w')"
  obtain y w1 where p: "predict net (req_text request) w = (y, w1)"
    by (cases "predict net (req_text request) w")
  with a obtain r where y: "y = Inr r" by (cases y) (auto simp: predict_sentiment_try_def)
  obtain ts w2 where n: "now w1 = (ts, w2)" by (cases "now w1")
  from a p y n have "response = make_response r ts"
    by (auto simp: predict_sentiment_try_def split: sum.splits prod.splits)
  moreover note predict_Inr [OF p [unfolded y]] predict_well_labelled [OF p [unfolded y]]
  ultimately show ?thesis by blast
qed

lemma batch_try_rows:
  "batch_predict_sentiment_try model request w = (x, w') \<Longrightarrow>
     \<exists>new. rows w' = rows w @ new \<and> (\<forall>row\<in>set new. row_class_invariant row)"
proof (cases model)
  case None
  assume "batch_predict_sentiment_try model request w = (x, w')"
  with None show ?thesis by (simp add: batch_predict_sentiment_try_def)
next
  case (Some net)
  assume a: "batch_predict_sentiment_try model request w = (x, w')"
  obtain y w1 where p: "batch_predict net (tweets request) w = (y, w1)"
    by (cases "batch_predict net (tweets request) w")
  then have r1: "rows w1 = rows w" by (auto dest: batch_predict_world)
  show ?thesis
  proof (cases y)
    case (Inl e)
    with a Some p r1 show ?thesis by (simp add: batch_predict_sentiment_try_def)
  next
    case (Inr rs)
    obtain z w2 where l: "batch_loop (batch_metadata request) rs [] w1 = (z, w2)"
      by (cases "batch_loop (batch_metadata request) rs [] w1")
    from batch_loop_rows [OF l] obtain new where
      new: "rows w2 = rows w1 @ new" "\<forall>row\<in>set new. \<exists>r\<in>set rs. row_of r row" by blast
    from p Inr have "\<forall>r\<in>set rs. well_labelled r" by (auto dest: batch_predict_Inr)
    with new have inv: "\<forall>row\<in>set new. row_class_invariant row"
      by (blast intro: row_of_invariant)
    from a Some p Inr l have "rows w' = rows w2"
      by (auto simp: batch_predict_sentiment_try_def now_def split: sum.splits prod.splits)
    with new r1 inv show ?thesis by auto
  qed
qed

lemma batch_try_Inr:
  "batch_predict_sentiment_try (Some net) request w = (Inr response, w') \<Longrightarrow>
     \<exists>rs tss. length tss = length rs \<and> results response = map2 make_response rs tss
        \<and> total_processed response = length rs
        \<and> map p_text rs = tweets request \<and> (\<forall>r\<in>set rs. well_labelled r)
        \<and> (\<forall>r\<in>set rs. \<exists>logits. net (p_text r) = Inr logits \<and> p_predicted_class r = argmax logits)
        \<and> calls w' = calls w @ tweets request"
proof -
  assume a: "batch_predict_sentiment_try (Some net) request w = (Inr response, w')"
  obtain y w1 where p: "batch_predict net (tweets request) w = (y, w1)"
    by (cases "batch_predict net (tweets request) w")
  with a obtain rs where y: "y = Inr rs" by (cases y) (auto simp: batch_predict_sentiment_try_def)
  obtain z w2 where l: "batch_loop (batch_metadata request) rs [] w1 = (z, w2)"
    by (cases "batch_loop (batch_metadata request) rs [] w1")
  with a p y obtain responses where z: "z = Inr responses"
    by (cases z) (auto simp: batch_predict_sentiment_try_def)
  from a p y l z have resp: "results response = responses" "total_processed response = length responses"
    "calls w' = calls w2"
    by (auto simp: batch_predict_sentiment_try_def now_def split: prod.splits)
  from batch_loop_Inr [OF l [unfolded z]] obtain tss where
    tss: "length tss = length rs" "responses = map2 make_response rs tss" and c: "calls w2 = calls w1"
    by auto
  note bp = batch_predict_Inr [OF p [unfolded y]]
  from bp have c1: "calls w1 = calls w @ tweets request" by simp
  show ?thesis
    using resp tss c c1 bp by (intro exI [of _ rs] exI [of _ tss]) auto
qed

lemma batch_try_calls:
  "batch_predict_sentiment_try (Some net) request w = (x, w') \<Longrightarrow>
     \<exists>w1. calls w' = calls w1 \<and> snd (batch_predict net (tweets request) w) = w1"
proof -
  assume a: "batch_predict_sentiment_try (Some net) request w = (x, w')"
  obtain y w1 where p: "batch_predict net (tweets request) w = (y, w1)"
    by (cases "batch_predict net (tweets request) w")
  show ?thesis
  proof (cases y)
    case (Inl e)
    with a p show ?thesis by (simp add: batch_predict_sentiment_try_def)
  next
    case (Inr rs)
    obtain z w2 where l: "batch_loop (batch_metadata request) rs [] w1 = (z, w2)"
      by (cases "batch_loop (batch_metadata request) rs [] w1")
    from batch_loop_calls [OF l] have "calls w2 = calls w1" .
    moreover from a p Inr l have "calls w' = calls w2"
      by (cases z) (auto simp: batch_predict_sentiment_try_def now_def split: prod.splits)
    ultimately show ?thesis using p by simp
  qed
qed

lemma post_predict_200:
  "post_predict model body w = (HTTP200 r, w') \<Longrightarrow> predict_sentiment_try model body w = (Inr r, w')"
  by (auto simp: post_predict_def predict_sentiment_def split: if_splits prod.splits sum.splits)

lemma post_batch_predict_200:
  "post_batch_predict model body w = (HTTP200 r, w') \<Longrightarrow>
     batch_predict_sentiment_try model body w = (Inr r, w')"
  by (auto simp: post_batch_predict_def batch_predict_sentiment_def
        split: if_splits prod.splits sum.splits)

lemma post_predict_rows:
  "rows (snd (post_predict model body w)) = rows (snd (predict_sentiment_try model body w))
   \<or> rows (snd (post_predict model body w)) = rows w"
  by (auto simp: post_predict_def predict_sentiment_def split: if_splits prod.splits sum.splits)

lemma post_batch_predict_rows:
  "rows (snd (post_batch_predict model body w)) = rows (snd (batch_predict_sentiment_try model body w))
   \<or> rows (snd (post_batch_predict model body w)) = rows w"
  by (auto simp: post_batch_predict_def batch_predict_sentiment_def
        split: if_splits prod.splits sum.splits)

text \<open>
  The check of the batch request model: a number of items outside [1,50] is answered with
  422 and nothing else happens; a number inside is handed to the handler.
\<close>

lemma batch_count_validation:
  "(\<not> (1 \<le> length (tweets body) \<and> length (tweets body) \<le> 50)
      \<longrightarrow> post_batch_predict model body w = (HTTPError 422, w))
   \<and> (1 \<le> length (tweets body) \<and> length (tweets body) \<le> 50
      \<longrightarrow> post_batch_predict model body w = (to_response (fst (batch_predict_sentiment model body w)),
                                               snd (batch_predict_sentiment model body w))
        \<and> fst (post_batch_predict model body w) \<noteq> HTTPError 422)"
  by (auto simp: post_batch_predict_def BatchTweetRequest_valid_def batch_predict_sentiment_def
        split: prod.splits sum.splits)

lemma sample_net_binary: "binary_head sample_net"
  by (auto simp: binary_head_def sample_net_def split: if_splits)

lemma fresh_reliable: "reliable fresh_world"
  by (simp add: reliable_def fresh_world_def)

lemmas handler_defs = post_predict_def post_batch_predict_def TweetRequest_valid_def
  BatchTweetRequest_valid_def predict_sentiment_def predict_sentiment_try_def
  batch_predict_sentiment_def batch_predict_sentiment_try_def predict_def
  log_prediction_def PredictionLogger_log_prediction_def get_logger_def store_access_def
  now_def make_response_def

text \<open>With the sample classifier, a batch with an empty item in the middle is answered and logged.\<close>

lemma empty_item_batch_sample:
  "fst (post_batch_predict (Some sample_net) empty_item_batch fresh_world) \<noteq> HTTPError 422
  \<and> calls (snd (post_batch_predict (Some sample_net) empty_item_batch fresh_world)) = [''a'', '''', ''ab'']
  \<and> map col_text (rows (snd (post_batch_predict (Some sample_net) empty_item_batch fresh_world))) = [''a'', '''', ''ab'']"
  by (simp add: handler_defs sample_net_def empty_item_batch_def fresh_world_def Let_def)

subsection \<open>Ordered reads\<close>

lemma length_insert_desc: "length (insert_desc r xs) = Suc (length xs)"
  by (induction xs) auto

lemma filter_insert_desc:
  "length (filter P (insert_desc r xs)) = (if P r then 1 else 0) + length (filter P xs)"
  by (induction xs) auto

lemma set_insert_desc: "set (insert_desc r xs) = insert r (set xs)"
  by (induction xs) auto

lemma length_order_by: "length (order_by_created_at_desc rs) = length rs"
  by (induction rs) (auto simp: order_by_created_at_desc_def length_insert_desc)

lemma filter_order_by:
  "length (filter P (order_by_created_at_desc rs)) = length (filter P rs)"
  by (induction rs) (auto simp: order_by_created_at_desc_def filter_insert_desc)

lemma set_order_by: "set (order_by_created_at_desc rs) = set rs"
  by (induction rs) (auto simp: order_by_created_at_desc_def set_insert_desc)

lemma sorted_insert_desc:
  "sorted_wrt (\<lambda>a b. col_created_at b \<le> col_created_at a) xs \<Longrightarrow>
   sorted_wrt (\<lambda>a b. col_created_at b \<le> col_created_at a) (insert_desc r xs)"
  by (induction xs) (auto simp: set_insert_desc)

lemma sorted_order_by:
  "sorted_wrt (\<lambda>a b. col_created_at b \<le> col_created_at a) (order_by_created_at_desc rs)"
  by (induction rs) (auto simp: order_by_created_at_desc_def sorted_insert_desc)

lemma get_all_predictions_reliable:
  assumes "reliable w"
  shows "\<exists>w'. get_all_predictions None w = (Inr (map row_to_dict (order_by_created_at_desc (rows w))), w')
     \<and> rows w' = rows w"
  using assms
  by (auto simp: get_all_predictions_def get_logger_def store_access_def reliable_def
        PredictionLogger_get_all_predictions_def Let_def)

lemma s_sentiment_row [simp]: "s_sentiment (row_to_dict r) = col_sentiment r"
  by (simp add: row_to_dict_def)

text \<open>
  The counts in the snapshot of a non-empty table read without a fault: the number of
  rows, the number of rows with sentiment \<open>Positive\<close>, and their difference.
\<close>

lemma stats_counts:
  assumes ne: "rows w \<noteq> []" and rel: "reliable w"
  shows "\<exists>st w' pc nc.
      get_stats w = (HTTP200 st, w')
      \<and> map_of st ''total_predictions'' = Some (PyInt (int (length (rows w))))
      \<and> map_of st ''positive_count'' = Some (PyInt pc)
      \<and> pc = int (length (filter (\<lambda>r. col_sentiment r = ''Positive'') (rows w)))
      \<and> map_of st ''negative_count'' = Some (PyInt nc)
      \<and> pc + nc = int (length (rows w))"
proof -
  let ?ps = "map row_to_dict (order_by_created_at_desc (rows w))"
  let ?total = "int (length (rows w))"
  let ?pc = "int (length (filter (\<lambda>r. col_sentiment r = ''Positive'') (rows w)))"
  from get_all_predictions_reliable [OF rel] obtain w1 where
    g: "get_all_predictions None w = (Inr ?ps, w1)" by blast
  from ne have nonempty: "?ps \<noteq> []"
    using length_order_by [of "rows w"] by (metis length_0_conv length_map)
  have len: "int (length ?ps) = ?total" by (simp add: length_order_by)
  have pos: "int (length (filter (\<lambda>p. s_sentiment p = ''Positive'') ?ps)) = ?pc"
    using filter_order_by [of "\<lambda>r. col_sentiment r = ''Positive''" "rows w"]
    by (simp add: filter_map comp_def)
  obtain ts w2 where n: "now w1 = (ts, w2)" by (cases "now w1")
  obtain st where st: "get_prediction_stats_try w = (Inr st, w2)"
    and "map_of st ''total_predictions'' = Some (PyInt ?total)"
    and "map_of st ''positive_count'' = Some (PyInt ?pc)"
    and "map_of st ''negative_count'' = Some (PyInt (?total - ?pc))"
    unfolding get_prediction_stats_try_def g using nonempty n
    by (simp only: prod.case sum.case if_False Let_def len pos) simp
  then show ?thesis
    by (intro exI [of _ st] exI [of _ w2] exI [of _ ?pc] exI [of _ "?total - ?pc"])
       (simp add: get_stats_def get_prediction_stats_def)
qed

lemma sorted_limit:
  "sorted_wrt R xs \<Longrightarrow> sql_limit n xs = Inr ys \<Longrightarrow> sorted_wrt R ys"
  by (auto simp: sql_limit_def sorted_wrt_take split: if_splits)

lemma newest_first_dicts:
  "sorted_wrt (\<lambda>a b. col_created_at b \<le> col_created_at a) xs \<Longrightarrow>
   sorted_wrt (\<lambda>p q. s_created_at q \<le> s_created_at p) (map row_to_dict xs)"
  by (simp add: sorted_wrt_map row_to_dict_def)

lemma method_get_all_predictions_cases:
  "PredictionLogger_get_all_predictions limit w = (ps, w') \<Longrightarrow>
     ps = [] \<or> ps = map row_to_dict (order_by_created_at_desc (rows w))
     \<or> (\<exists>n ys. limit = Some n \<and> sql_limit n (order_by_created_at_desc (rows w)) = Inr ys
           \<and> ps = map row_to_dict ys)"
  by (auto simp: PredictionLogger_get_all_predictions_def store_access_def Let_def
        split: if_splits option.splits sum.splits)

lemma get_all_predictions_method:
  "get_all_predictions limit w = (Inr ps, w') \<Longrightarrow>
     \<exists>w1 w2. rows w1 = rows w \<and> PredictionLogger_get_all_predictions limit w1 = (ps, w2)"
proof -
  assume a: "get_all_predictions limit w = (Inr ps, w')"
  obtain x w1 where g: "get_logger w = (x, w1)" by (cases "get_logger w")
  from get_logger_frame [OF g] have "rows w1 = rows w" by simp
  moreover from a g have "PredictionLogger_get_all_predictions limit w1 = (ps, w')"
    by (cases x) (auto simp: get_all_predictions_def split: prod.splits)
  ultimately show ?thesis by blast
qed

lemma get_all_predictions_newest_first:
  assumes "get_all_predictions limit w = (Inr ps, w')"
  shows "sorted_wrt (\<lambda>p q. s_created_at q \<le> s_created_at p) ps"
proof -
  from get_all_predictions_method [OF assms] obtain w1 w2 where
    "rows w1 = rows w" "PredictionLogger_get_all_predictions limit w1 = (ps, w2)" by blast
  with method_get_all_predictions_cases [of limit w1 ps w2]
  show ?thesis
    by (auto intro!: newest_first_dicts sorted_order_by
          intro: sorted_limit [OF sorted_order_by])
qed

lemma get_all_predictions_positive_limit:
  assumes "0 < n" and "get_all_predictions (Some n) w = (Inr ps, w')"
  shows "int (length ps) \<le> n"
proof -
  from get_all_predictions_method [OF assms(2)] obtain w1 w2 where
    "PredictionLogger_get_all_predictions (Some n) w1 = (ps, w2)" by blast
  with assms(1) show ?thesis
    by (auto simp: PredictionLogger_get_all_predictions_def store_access_def Let_def
          sql_limit_def split: if_splits)
qed

lemma get_predictions_by_sentiment_filtered:
  "get_predictions_by_sentiment sentiment w = (Inr ps, w') \<Longrightarrow>
     (\<forall>p\<in>set ps. s_sentiment p = sentiment)
     \<and> sorted_wrt (\<lambda>p q. s_created_at q \<le> s_created_at p) ps"
  by (auto simp: get_predictions_by_sentiment_def PredictionLogger_get_predictions_by_sentiment_def
        get_logger_def store_access_def Let_def sorted_order_by set_order_by
        split: if_splits intro!: newest_first_dicts)

lemma nonempty_metadata_kept:
  "d \<noteq> [] \<Longrightarrow> log_prediction text sentiment confidence (Some d) w = (Inr u, w') \<Longrightarrow>
     \<exists>row. rows w' = rows w @ [row] \<and> s_metadata (row_to_dict row) = Some d"
  by (auto simp: log_prediction_def PredictionLogger_log_prediction_def get_logger_def
        store_access_def now_def Let_def row_to_dict_def json_dumps_def
        split: if_splits sum.splits prod.splits)

subsection \<open>Faults of the store\<close>

lemma fault_within_1: "fault_within (Suc 0) w = io_fault w (io_ops w)"
  by (simp add: fault_within_def)

lemma fault_within_2: "fault_within (Suc (Suc 0)) w = (io_fault w (io_ops w) \<or> io_fault w (Suc (io_ops w)))"
  by (auto simp: fault_within_def less_Suc_eq)

lemma log_prediction_fault:
  "fault_within (Suc (init_accesses w)) w \<Longrightarrow>
     \<exists>e w'. log_prediction text sentiment confidence metadata w = (Inl e, w') \<and> rows w' = rows w"
  by (cases "logger_instance w")
     (auto simp: init_accesses_def fault_within_1 fault_within_2 log_prediction_def
        PredictionLogger_log_prediction_def get_logger_def store_access_def now_def Let_def)

lemma log_prediction_Inr:
  "log_prediction text sentiment confidence metadata w = (Inr u, w') \<Longrightarrow>
     logger_instance w' \<and> io_ops w' = io_ops w + Suc (init_accesses w) \<and> io_fault w' = io_fault w
     \<and> \<not> fault_within (Suc (init_accesses w)) w"
  by (cases "logger_instance w")
     (auto simp: init_accesses_def fault_within_1 fault_within_2 log_prediction_def
        PredictionLogger_log_prediction_def get_logger_def store_access_def now_def Let_def
        split: if_splits)

lemma fault_within_now: "fault_within n (snd (now w)) = fault_within n w"
  by (simp add: fault_within_def now_def)

lemma init_accesses_now: "init_accesses (snd (now w)) = init_accesses w"
  by (simp add: init_accesses_def now_def)

lemma fault_within_later:
  assumes f: "fault_within (n + m) w" and nf: "\<not> fault_within m w"
    and w': "io_fault w' = io_fault w" "io_ops w' = io_ops w + m"
  shows "fault_within n w'"
proof -
  from f obtain k where k: "k < n + m" "io_fault w (io_ops w + k)"
    by (auto simp: fault_within_def)
  with nf have "m \<le> k" by (auto simp: fault_within_def not_less [symmetric])
  with k w' have "k - m < n" "io_fault w' (io_ops w' + (k - m))" by auto
  then show ?thesis by (auto simp: fault_within_def)
qed

lemma batch_loop_fault:
  "rs \<noteq> [] \<Longrightarrow> fault_within (length rs + init_accesses w) w \<Longrightarrow>
     \<exists>e w'. batch_loop metadata rs acc w = (Inl e, w')"
proof (induction rs arbitrary: acc w)
  case Nil
  then show ?case by simp
next
  case (Cons r rs)
  obtain ts w1 where n: "now w = (ts, w1)" by (cases "now w")
  then have w1: "fault_within (length (r # rs) + init_accesses w1) w1" "init_accesses w1 = init_accesses w"
    using Cons.prems(2) fault_within_now [of _ w] init_accesses_now [of w] by auto
  obtain y w2 where l: "log_prediction (p_text r) (p_sentiment r) (p_confidence r) metadata w1 = (y, w2)"
    by (cases "log_prediction (p_text r) (p_sentiment r) (p_confidence r) metadata w1")
  show ?case
  proof (cases y)
    case (Inl e)
    with n l show ?thesis by simp
  next
    case (Inr u)
    note ok = log_prediction_Inr [OF l [unfolded Inr]]
    from ok have o2: "init_accesses w2 = 0" by (simp add: init_accesses_def)
    from w1(1) have "fault_within (length rs + Suc (init_accesses w1)) w1" by (simp add: add.commute)
    from fault_within_later [OF this] ok have f2: "fault_within (length rs) w2" by simp
    then have ne: "rs \<noteq> []" by (auto simp: fault_within_def)
    from f2 o2 have "fault_within (length rs + init_accesses w2) w2" by simp
    from Cons.IH [OF ne this] obtain e w' where
      "batch_loop metadata rs (acc @ [make_response r ts]) w2 = (Inl e, w')" by blast
    with n l Inr show ?thesis by simp
  qed
qed

lemmas store_defs = get_all_predictions_def PredictionLogger_get_all_predictions_def
  get_predictions_by_sentiment_def PredictionLogger_get_predictions_by_sentiment_def
  order_by_created_at_desc_def sql_limit_def row_to_dict_def

lemmas stats_defs = get_stats_def get_prediction_stats_def get_prediction_stats_try_def

section \<open>The claims\<close>

text \<open>
  C1. A prediction request, single or batch, that arrives while the model is not loaded is
  not handed to the classifier, but it is not answered with 503 either: the
  \<open>HTTPException(503)\<close> raised inside the \<open>try\<close> block is caught by the handler's own
  \<open>except Exception\<close> and replaced by status 500.
\<close>

theorem unloaded_model_answers_500:
  "post_predict None sample_request fresh_world = (HTTPError 500, fresh_world)
  \<and> post_batch_predict None sample_batch fresh_world = (HTTPError 500, fresh_world)"
  by (simp add: handler_defs sample_request_def sample_batch_def)

text \<open>
  C2. With a classifier whose head has two classes, every response of \<open>/predict\<close> and
  every result in a response of \<open>/batch_predict\<close> has \<open>predicted_class = 0\<close> exactly when
  its sentiment is \<open>Positive\<close> and \<open>predicted_class = 1\<close> exactly when it is \<open>Negative\<close>; and
  whatever the outcome of the request, the rows it has added to the table satisfy the
  same two equivalences.
\<close>

theorem class_sentiment_invariant:
  assumes bin: "binary_head net"
  shows "(\<forall>r w'. post_predict (Some net) body w = (HTTP200 r, w') \<longrightarrow> response_class_invariant r)
    \<and> (\<forall>b w'. post_batch_predict (Some net) batch w = (HTTP200 b, w')
          \<longrightarrow> (\<forall>r\<in>set (results b). response_class_invariant r))
    \<and> (\<exists>new. rows (snd (post_predict (Some net) body w)) = rows w @ new
          \<and> (\<forall>row\<in>set new. row_class_invariant row))
    \<and> (\<exists>new. rows (snd (post_batch_predict (Some net) batch w)) = rows w @ new
          \<and> (\<forall>row\<in>set new. row_class_invariant row))"
proof (intro conjI allI impI)
  fix r w'
  assume "post_predict (Some net) body w = (HTTP200 r, w')"
  then have "predict_sentiment_try (Some net) body w = (Inr r, w')" by (rule post_predict_200)
  from predict_sentiment_try_Inr [OF this] obtain p ts logits where
    "r = make_response p ts" "well_labelled p" "net (req_text body) = Inr logits"
    "p_predicted_class p = argmax logits" by blast
  with bin show "response_class_invariant r"
    using binary_class [of net "req_text body" logits] by (simp add: response_invariant)
next
  fix b w'
  assume "post_batch_predict (Some net) batch w = (HTTP200 b, w')"
  then have "batch_predict_sentiment_try (Some net) batch w = (Inr b, w')"
    by (rule post_batch_predict_200)
  from batch_try_Inr [OF this] obtain rs tss where
    len: "length tss = length rs" and res: "results b = map2 make_response rs tss"
    and wl: "\<forall>r\<in>set rs. well_labelled r"
    and am: "\<forall>r\<in>set rs. \<exists>logits. net (p_text r) = Inr logits \<and> p_predicted_class r = argmax logits"
    by blast
  show "\<forall>r\<in>set (results b). response_class_invariant r"
  proof
    fix r
    assume "r \<in> set (results b)"
    with res obtain p ts where "p \<in> set rs" "r = make_response p ts"
      by (auto dest: set_zip_leftD)
    moreover with am obtain logits where "net (p_text p) = Inr logits"
      "p_predicted_class p = argmax logits" by blast
    ultimately show "response_class_invariant r"
      using wl bin binary_class [of net "p_text p" logits] by (simp add: response_invariant)
  qed
next
  obtain x w1 where t: "predict_sentiment_try (Some net) body w = (x, w1)"
    by (cases "predict_sentiment_try (Some net) body w")
  from predict_sentiment_try_rows [OF t] obtain new where
    new: "rows w1 = rows w @ new" "\<forall>row\<in>set new. row_class_invariant row" by blast
  from post_predict_rows [of "Some net" body w]
  show "\<exists>new. rows (snd (post_predict (Some net) body w)) = rows w @ new
          \<and> (\<forall>row\<in>set new. row_class_invariant row)"
  proof
    assume "rows (snd (post_predict (Some net) body w)) = rows (snd (predict_sentiment_try (Some net) body w))"
    with t new show ?thesis by auto
  next
    assume "rows (snd (post_predict (Some net) body w)) = rows w"
    then show ?thesis by (intro exI [of _ "[]"]) simp
  qed
next
  obtain x w1 where t: "batch_predict_sentiment_try (Some net) batch w = (x, w1)"
    by (cases "batch_predict_sentiment_try (Some net) batch w")
  from batch_try_rows [OF t] obtain new where
    new: "rows w1 = rows w @ new" "\<forall>row\<in>set new. row_class_invariant row" by blast
  from post_batch_predict_rows [of "Some net" batch w]
  show "\<exists>new. rows (snd (post_batch_predict (Some net) batch w)) = rows w @ new
          \<and> (\<forall>row\<in>set new. row_class_invariant row)"
  proof
    assume "rows (snd (post_batch_predict (Some net) batch w))
      = rows (snd (batch_predict_sentiment_try (Some net) batch w))"
    with t new show ?thesis by auto
  next
    assume "rows (snd (post_batch_predict (Some net) batch w)) = rows w"
    then show ?thesis by (intro exI [of _ "[]"]) simp
  qed
qed

theorem class_sentiment_invariant_witness:
  "\<exists>r w'. post_predict (Some sample_net) sample_request fresh_world = (HTTP200 r, w')
     \<and> resp_sentiment r = ''Negative'' \<and> resp_predicted_class r = 1
     \<and> response_class_invariant r"
proof -
  have "\<exists>r w'. post_predict (Some sample_net) sample_request fresh_world = (HTTP200 r, w')
     \<and> resp_sentiment r = ''Negative'' \<and> resp_predicted_class r = 1"
    by (simp add: handler_defs sample_net_def sample_request_def fresh_world_def Let_def)
  with class_sentiment_invariant [OF sample_net_binary, of sample_request fresh_world]
  show ?thesis by blast
qed

text \<open>
  C3. A batch whose only item is the empty string is not answered with 422: the request
  model constrains the number of items, not the items, so the handler runs and hands the
  empty string to the classifier, whatever the classifier and the state of the store.
\<close>

theorem empty_item_reaches_classifier:
  "fst (post_batch_predict (Some net) lone_empty_batch w) \<noteq> HTTPError 422
   \<and> calls (snd (post_batch_predict (Some net) lone_empty_batch w)) = calls w @ ['''']"
proof -
  obtain x w' where t: "batch_predict_sentiment_try (Some net) lone_empty_batch w = (x, w')"
    by (cases "batch_predict_sentiment_try (Some net) lone_empty_batch w")
  obtain y w1 where p: "predict net '''' w = (y, w1)" by (cases "predict net '''' w")
  from predict_world [OF p] have c1: "calls w1 = calls w @ ['''']" by simp
  from p have "snd (batch_predict net (tweets lone_empty_batch) w) = w1"
    by (cases y) (simp_all add: lone_empty_batch_def)
  with batch_try_calls [OF t] c1 have c: "calls w' = calls w @ ['''']" by simp
  have v: "BatchTweetRequest_valid lone_empty_batch"
    by (simp add: BatchTweetRequest_valid_def lone_empty_batch_def)
  from t v have "post_batch_predict (Some net) lone_empty_batch w
      = (to_response (case x of Inl e \<Rightarrow> Inl (HTTPException 500) | Inr r \<Rightarrow> Inr r), w')"
    by (cases x) (simp_all add: post_batch_predict_def batch_predict_sentiment_def)
  with c show ?thesis by (cases x) simp_all
qed

text \<open>
  C4, as stated, fails: the snapshot returned for an empty store has no
  \<open>positive_percentage\<close> and no \<open>negative_percentage\<close> entry.
\<close>

theorem empty_store_percentages_counterexample:
  "fst (get_stats fresh_world) = HTTP200 zero_snapshot
  \<and> map_of zero_snapshot ''positive_percentage'' = None
  \<and> map_of zero_snapshot ''negative_percentage'' = None"
  by (simp add: stats_defs store_defs handler_defs zero_snapshot_def fresh_world_def)

text \<open>
  C4, amended. When the table holds no rows and the store can be opened, \<open>GET /stats\<close>
  answers 200 with the dict \<open>zero_snapshot\<close>: total, positive and negative count and
  average confidence are 0, there is a message, and no percentage is reported.
\<close>

theorem empty_store_stats:
  assumes "rows w = []" and "logger_instance w \<or> \<not> io_fault w (io_ops w)"
  shows "fst (get_stats w) = HTTP200 zero_snapshot \<and> rows (snd (get_stats w)) = []"
  using assms
  by (auto simp: get_stats_def get_prediction_stats_def get_prediction_stats_try_def
        get_all_predictions_def get_logger_def store_access_def
        PredictionLogger_get_all_predictions_def order_by_created_at_desc_def
        zero_snapshot_def Let_def)

theorem empty_store_stats_witness:
  "fst (get_stats fresh_world) = HTTP200 zero_snapshot
   \<and> map_of zero_snapshot ''total_predictions'' = Some (PyInt 0)
   \<and> map_of zero_snapshot ''positive_count'' = Some (PyInt 0)
   \<and> map_of zero_snapshot ''negative_count'' = Some (PyInt 0)
   \<and> map_of zero_snapshot ''average_confidence'' = Some (PyInt 0)"
  using empty_store_stats [of fresh_world]
  by (simp add: fresh_world_def zero_snapshot_def)

text \<open>
  C5. For a batch of N texts with N in [1,50], each of which the loaded classifier
  classifies, and a store that does not fault, \<open>/batch_predict\<close> answers 200 with exactly
  N results, the i-th result carrying the i-th text; the classifier has been called
  once per text, in the order of the request.
\<close>

theorem batch_results_in_order:
  assumes valid: "BatchTweetRequest_valid body"
    and cls: "\<forall>t\<in>set (tweets body). classifies net t"
    and rel: "reliable w"
  shows "\<exists>resp w'. post_batch_predict (Some net) body w = (HTTP200 resp, w')
      \<and> length (results resp) = length (tweets body)
      \<and> (\<forall>i<length (tweets body). resp_text (results resp ! i) = tweets body ! i)
      \<and> total_processed resp = length (tweets body)
      \<and> calls w' = calls w @ tweets body"
proof -
  from batch_predict_succeeds [OF cls, of w] obtain rs w1 where
    bp: "batch_predict net (tweets body) w = (Inr rs, w1)"
    by (cases "batch_predict net (tweets body) w") auto
  from batch_predict_world [OF bp] obtain cs where "w1 = w\<lparr>calls := cs\<rparr>" ..
  with rel have "reliable w1" by (simp add: reliable_def)
  from batch_loop_reliable [OF this] obtain responses w2 where
    bl: "batch_loop (batch_metadata body) rs [] w1 = (Inr responses, w2)" by blast
  obtain ts w3 where n: "now w2 = (ts, w3)" by (cases "now w2")
  let ?resp = "\<lparr>results = responses, total_processed = length responses, batch_timestamp = ts\<rparr>"
  from bp bl n have t: "batch_predict_sentiment_try (Some net) body w = (Inr ?resp, w3)"
    by (simp add: batch_predict_sentiment_try_def)
  with valid have p: "post_batch_predict (Some net) body w = (HTTP200 ?resp, w3)"
    by (simp add: post_batch_predict_def batch_predict_sentiment_def)
  from batch_try_Inr [OF t] obtain rs' tss where
    len: "length tss = length rs'" and res: "responses = map2 make_response rs' tss"
    and tx: "map p_text rs' = tweets body" and c: "calls w3 = calls w @ tweets body"
    by auto
  from tx have l: "length rs' = length (tweets body)" by (metis length_map)
  have "\<forall>i<length (tweets body). resp_text (responses ! i) = tweets body ! i"
  proof (intro allI impI)
    fix i
    assume i: "i < length (tweets body)"
    with len l res have "responses ! i = make_response (rs' ! i) (tss ! i)" by simp
    then have "resp_text (responses ! i) = p_text (rs' ! i)" by (simp add: make_response_def)
    also from i l have "\<dots> = map p_text rs' ! i" by simp
    finally show "resp_text (responses ! i) = tweets body ! i" using tx by simp
  qed
  with p len l res c show ?thesis by (intro exI [of _ ?resp] exI [of _ w3]) simp
qed

theorem batch_results_in_order_witness:
  "\<exists>resp w'. post_batch_predict (Some sample_net) sample_batch fresh_world = (HTTP200 resp, w')
     \<and> length (results resp) = 2 \<and> resp_text (results resp ! 0) = ''a''
     \<and> resp_text (results resp ! 1) = ''ab'' \<and> calls w' = [''a'', ''ab'']"
proof -
  have v: "BatchTweetRequest_valid sample_batch"
    by (simp add: BatchTweetRequest_valid_def sample_batch_def)
  have c: "\<forall>t\<in>set (tweets sample_batch). classifies sample_net t"
    by (simp add: classifies_def sample_net_def sample_batch_def)
  from batch_results_in_order [OF v c fresh_reliable]
  show ?thesis by (auto simp: sample_batch_def fresh_world_def)
qed

text \<open>
  C7. A request that carries the empty dict as metadata is logged with \<open>NULL\<close> in the
  metadata column, and a later read returns \<open>None\<close> for it, not the empty dict:
  \<open>json.dumps(metadata) if metadata else None\<close> takes the empty dict for a missing one.
\<close>

theorem empty_metadata_is_dropped:
  "\<exists>r w' ps w''. post_predict (Some sample_net) empty_metadata_request fresh_world = (HTTP200 r, w')
   \<and> map col_metadata (rows w') = [None]
   \<and> get_all_predictions None w' = (Inr ps, w'') \<and> map s_metadata ps = [None]"
  by (simp add: store_defs handler_defs sample_net_def empty_metadata_request_def fresh_world_def Let_def)

text \<open>
  C8, as stated, fails: with two rows in the table and a fault at the history query,
  \<open>GET /stats\<close> answers 200 with the snapshot of an empty store.
\<close>

theorem read_fault_counterexample:
  "fst (get_stats faulty_world) = HTTP200 zero_snapshot \<and> length (rows faulty_world) = 2"
  by (simp add: stats_defs store_defs handler_defs zero_snapshot_def faulty_world_def stocked_world_def)

text \<open>
  C8, amended. A fault while the store is opened for the first time is answered with 500,
  by \<open>GET /stats\<close> too. A fault of the history query itself is caught inside
  \<open>get_all_predictions\<close>, which returns the empty list: \<open>GET /stats\<close> then answers 200
  with the snapshot of an empty store. A fault while a record is appended is answered
  with 500 by \<open>/predict\<close>, which leaves the table as it was, and by \<open>/batch_predict\<close>.
\<close>

theorem store_fault_status:
  "(\<not> logger_instance w \<and> io_fault w (io_ops w) \<longrightarrow> fst (get_stats w) = HTTPError 500)
   \<and> (logger_instance w \<and> io_fault w (io_ops w) \<longrightarrow> fst (get_stats w) = HTTP200 zero_snapshot)
   \<and> (TweetRequest_valid body \<and> classifies net (req_text body) \<and> fault_within (1 + init_accesses w) w
        \<longrightarrow> fst (post_predict (Some net) body w) = HTTPError 500
          \<and> rows (snd (post_predict (Some net) body w)) = rows w)
   \<and> (BatchTweetRequest_valid batch \<and> (\<forall>t\<in>set (tweets batch). classifies net t)
        \<and> fault_within (length (tweets batch) + init_accesses w) w
        \<longrightarrow> fst (post_batch_predict (Some net) batch w) = HTTPError 500)"
proof -
  have closed: "\<not> logger_instance w \<and> io_fault w (io_ops w) \<longrightarrow> fst (get_stats w) = HTTPError 500"
    by (simp add: get_stats_def get_prediction_stats_def get_prediction_stats_try_def
          get_all_predictions_def get_logger_def store_access_def)
  have query: "logger_instance w \<and> io_fault w (io_ops w) \<longrightarrow> fst (get_stats w) = HTTP200 zero_snapshot"
    by (simp add: get_stats_def get_prediction_stats_def get_prediction_stats_try_def
          get_all_predictions_def get_logger_def store_access_def
          PredictionLogger_get_all_predictions_def zero_snapshot_def)
  have single: "TweetRequest_valid body \<and> classifies net (req_text body) \<and> fault_within (1 + init_accesses w) w
        \<longrightarrow> fst (post_predict (Some net) body w) = HTTPError 500
          \<and> rows (snd (post_predict (Some net) body w)) = rows w"
  proof
  assume a: "TweetRequest_valid body \<and> classifies net (req_text body) \<and> fault_within (1 + init_accesses w) w"
  obtain y w1 where p: "predict net (req_text body) w = (y, w1)"
    by (cases "predict net (req_text body) w")
  with a obtain r where y: "y = Inr r" using predict_Inr_iff [of net "req_text body" w] by auto
  from p have w1: "w1 = w\<lparr>calls := calls w @ [req_text body]\<rparr>" by (rule predict_world)
  obtain ts w2 where n: "now w1 = (ts, w2)" by (cases "now w1")
  with w1 a have "fault_within (Suc (init_accesses w2)) w2" "rows w2 = rows w"
    by (auto simp: now_def fault_within_def init_accesses_def)
  with log_prediction_fault [of w2 "req_text body" "p_sentiment r" "p_confidence r" "req_metadata body"]
  obtain e w3 where "log_prediction (req_text body) (p_sentiment r) (p_confidence r)
      (req_metadata body) w2 = (Inl e, w3)" "rows w3 = rows w" by auto
  with a p y n have "post_predict (Some net) body w = (HTTPError 500, w3)"
    by (simp add: post_predict_def predict_sentiment_def predict_sentiment_try_def)
  with \<open>rows w3 = rows w\<close>
  show "fst (post_predict (Some net) body w) = HTTPError 500
          \<and> rows (snd (post_predict (Some net) body w)) = rows w" by simp
  qed
  have many: "BatchTweetRequest_valid batch \<and> (\<forall>t\<in>set (tweets batch). classifies net t)
        \<and> fault_within (length (tweets batch) + init_accesses w) w
        \<longrightarrow> fst (post_batch_predict (Some net) batch w) = HTTPError 500"
  proof
  assume a: "BatchTweetRequest_valid batch \<and> (\<forall>t\<in>set (tweets batch). classifies net t)
        \<and> fault_within (length (tweets batch) + init_accesses w) w"
  then have "\<forall>t\<in>set (tweets batch). classifies net t" by blast
  from batch_predict_succeeds [OF this, of w] obtain rs w1 where
    bp: "batch_predict net (tweets batch) w = (Inr rs, w1)"
    by (cases "batch_predict net (tweets batch) w") auto
  from batch_predict_Inr [OF bp] have w1: "w1 = w\<lparr>calls := calls w @ tweets batch\<rparr>"
    by blast
  from batch_predict_Inr [OF bp] have len: "length rs = length (tweets batch)"
    by (metis length_map)
  from a have "tweets batch \<noteq> []" by (auto simp: BatchTweetRequest_valid_def)
  with len have ne: "rs \<noteq> []" by auto
  from a w1 len have "fault_within (length rs + init_accesses w1) w1"
    by (simp add: fault_within_def init_accesses_def)
  from batch_loop_fault [OF ne this] obtain e w2 where
    "batch_loop (batch_metadata batch) rs [] w1 = (Inl e, w2)" by blast
  with a bp show "fst (post_batch_predict (Some net) batch w) = HTTPError 500"
    by (simp add: post_batch_predict_def batch_predict_sentiment_def batch_predict_sentiment_try_def)
qed
  from closed query single many show ?thesis by blast
qed

theorem store_fault_status_witness:
  "fst (get_stats unreachable_world) = HTTPError 500
   \<and> fst (get_stats faulty_world) = HTTP200 zero_snapshot
   \<and> fst (post_predict (Some sample_net) sample_request faulty_world) = HTTPError 500
   \<and> rows (snd (post_predict (Some sample_net) sample_request faulty_world)) = rows faulty_world
   \<and> fst (post_batch_predict (Some sample_net) sample_batch faulty_world) = HTTPError 500"
proof -
  have u: "\<not> logger_instance unreachable_world \<and> io_fault unreachable_world (io_ops unreachable_world)"
    by (simp add: unreachable_world_def fresh_world_def)
  have f: "logger_instance faulty_world \<and> io_fault faulty_world (io_ops faulty_world)"
    by (simp add: faulty_world_def stocked_world_def)
  have p: "TweetRequest_valid sample_request \<and> classifies sample_net (req_text sample_request)
      \<and> fault_within (1 + init_accesses faulty_world) faulty_world"
    by (simp add: TweetRequest_valid_def classifies_def sample_net_def sample_request_def
          fault_within_def init_accesses_def faulty_world_def stocked_world_def)
  have b: "BatchTweetRequest_valid sample_batch \<and> (\<forall>t\<in>set (tweets sample_batch). classifies sample_net t)
      \<and> fault_within (length (tweets sample_batch) + init_accesses faulty_world) faulty_world"
    by (auto simp: BatchTweetRequest_valid_def classifies_def sample_net_def sample_batch_def
          fault_within_def init_accesses_def faulty_world_def stocked_world_def)
  from u store_fault_status [of unreachable_world sample_request sample_net sample_batch]
  have "fst (get_stats unreachable_world) = HTTPError 500" by blast
  moreover from f p b store_fault_status [of faulty_world sample_request sample_net sample_batch]
  have "fst (get_stats faulty_world) = HTTP200 zero_snapshot
   \<and> fst (post_predict (Some sample_net) sample_request faulty_world) = HTTPError 500
   \<and> rows (snd (post_predict (Some sample_net) sample_request faulty_world)) = rows faulty_world
   \<and> fst (post_batch_predict (Some sample_net) sample_batch faulty_world) = HTTPError 500"
    by blast
  ultimately show ?thesis by blast
qed

text \<open>
  C9. Reads are ordered by \<open>created_at\<close> descending and the filtered read returns only the
  requested sentiment (lemmas \<open>get_all_predictions_newest_first\<close>,
  \<open>get_predictions_by_sentiment_filtered\<close>), and a positive limit bounds the number of
  records (\<open>get_all_predictions_positive_limit\<close>). A limit of 0 does not: \<open>if limit:\<close>
  takes it for a missing limit, and both rows of the table are returned.
\<close>

theorem zero_limit_returns_all:
  "fst (get_all_predictions (Some 0) stocked_world)
    = Inr [row_to_dict negative_row, row_to_dict positive_row]"
  by (simp add: store_defs handler_defs stocked_world_def positive_row_def negative_row_def)

text \<open>
  C10. In the batch flow all texts are classified before anything is logged: when the
  classification of some text of a valid batch fails, the request is answered with 500
  and the store has not been touched: no row added, no key consumed, no access made.
\<close>

theorem batch_failure_leaves_store:
  assumes valid: "BatchTweetRequest_valid body"
    and bad: "\<exists>t\<in>set (tweets body). \<not> classifies net t"
  shows "\<exists>w'. post_batch_predict (Some net) body w = (HTTPError 500, w')
      \<and> rows w' = rows w \<and> next_id w' = next_id w \<and> io_ops w' = io_ops w
      \<and> logger_instance w' = logger_instance w"
proof -
  from batch_predict_fails [OF bad, of w] obtain e w1 where
    bp: "batch_predict net (tweets body) w = (Inl e, w1)"
    by (cases "batch_predict net (tweets body) w") auto
  from batch_predict_world [OF bp] obtain cs where w1: "w1 = w\<lparr>calls := cs\<rparr>" ..
  from bp valid have "post_batch_predict (Some net) body w = (HTTPError 500, w1)"
    by (simp add: post_batch_predict_def batch_predict_sentiment_def batch_predict_sentiment_try_def)
  with w1 show ?thesis by simp
qed

theorem batch_failure_leaves_store_witness:
  "\<exists>w'. post_batch_predict (Some sample_net) failing_batch fresh_world = (HTTPError 500, w')
     \<and> rows w' = [] \<and> io_ops w' = 0"
proof -
  have v: "BatchTweetRequest_valid failing_batch"
    by (simp add: BatchTweetRequest_valid_def failing_batch_def)
  have c: "\<exists>t\<in>set (tweets failing_batch). \<not> classifies sample_net t"
    by (simp add: classifies_def sample_net_def failing_batch_def)
  from batch_failure_leaves_store [OF v c, of fresh_world]
  show ?thesis by (auto simp: fresh_world_def)
qed

end
